theory Spec2Isabelle
  imports Complex_Main
begin

section \<open>The document store\<close>

text \<open>
  The order routes of the storefront API (\<^verbatim>\<open>routes/orders.js\<close>) work on five
  collections of a document store. A collection is the sequence of its documents in
  insertion order; a document is the pair of its \<^verbatim>\<open>_id\<close> and its other fields.
  JavaScript numbers are the values of a type \<open>'n\<close> with its own \<open>0\<close>, \<open>+\<close> and
  \<open>*\<close>, of which no law is assumed: what is proved holds of IEEE doubles with their
  rounding, their infinities and their not-a-number. Reads and writes of the store
  itself always succeed here; what can fail is casting, schema validation, a duplicate
  key, and a property read on \<^verbatim>\<open>undefined\<close> or \<^verbatim>\<open>null\<close>.
\<close>

type_synonym oid = nat

type_synonym 'a collection = "(oid \<times> 'a) list"

text \<open>A path parameter or body field that is meant to be an ObjectId: either it casts
  to one, or the cast raises.\<close>

datatype idparam = ObjectId oid | Malformed

datatype err = Message string | CastError | ValidationError | TypeError | DuplicateKey

text \<open>The result of adding up an array whose elements are numbers or
  \<^verbatim>\<open>undefined\<close>: a sum of numbers, or the \<^verbatim>\<open>NaN\<close> that adding
  \<^verbatim>\<open>undefined\<close> yields.\<close>

datatype 'n jsnum = Num 'n | NaN

text \<open>Of a category, a product and a user, the fields that the order routes read.\<close>

record category =
  c_name :: string

record 'n product =
  p_name :: string
  p_description :: string
  p_price :: 'n
  p_category :: oid

record user =
  u_name :: string

text \<open>\<^verbatim>\<open>models/OrderItem.js\<close>: the quantity is required, the product reference is not.\<close>

record 'n order_item =
  quantity :: 'n
  product :: "oid option"

text \<open>
  Modelled from the spec: the Order schema (\<^verbatim>\<open>models/Order.js\<close> is not among the
  sources). Its fields are the ones the POST handler passes to the constructor, plus
  the order timestamp the list handler sorts by. The record is polymorphic in the
  numbers and in what stands for the user and for a line item: identifiers in a stored
  order, documents in a populated one. An absent field is \<open>None\<close>.
\<close>

record ('n, 'u, 'i) order_doc =
  orderItems :: "'i list"
  shippingAddress1 :: "string option"
  shippingAddress2 :: "string option"
  city :: "string option"
  zip_code :: "string option"
  country :: "string option"
  phone :: "string option"
  status :: "string option"
  totalPrice :: 'n
  user :: 'u
  dateOrdered :: nat

type_synonym 'n order = "('n, oid option, oid) order_doc"

text \<open>The five collections, and \<open>nextId\<close>, the ObjectId that the next
  \<^verbatim>\<open>new Model(...)\<close> is given.\<close>

record 'n store =
  Users :: "user collection"
  Categories :: "category collection"
  Products :: "'n product collection"
  OrderItems :: "'n order_item collection"
  Orders :: "'n order collection"
  nextId :: oid

subsection \<open>Queries\<close>

definition findById :: "'a collection \<Rightarrow> oid \<Rightarrow> (oid \<times> 'a) option" where
  "findById c i = List.find (\<lambda>d. fst d = i) c"

text \<open>Removing one document: the first one with that \<^verbatim>\<open>_id\<close>.\<close>

fun removeOne :: "oid \<Rightarrow> 'a collection \<Rightarrow> 'a collection" where
  "removeOne i [] = []"
| "removeOne i (d # c) = (if fst d = i then c else d # removeOne i c)"

fun updateOne :: "oid \<Rightarrow> ('a \<Rightarrow> 'a) \<Rightarrow> 'a collection \<Rightarrow> 'a collection" where
  "updateOne i f [] = []"
| "updateOne i f (d # c) = (if fst d = i then (fst d, f (snd d)) # c else d # updateOne i f c)"

text \<open>An insert is rejected when the \<^verbatim>\<open>_id\<close> is already taken (the unique index on
  \<^verbatim>\<open>_id\<close>).\<close>

definition insertOne :: "'a collection \<Rightarrow> oid \<times> 'a \<Rightarrow> err + 'a collection" where
  "insertOne c d = (if fst d \<in> set (map fst c) then Inl DuplicateKey else Inr (c @ [d]))"

definition cast_id :: "idparam \<Rightarrow> err + oid" where
  "cast_id p = (case p of ObjectId i \<Rightarrow> Inr i | Malformed \<Rightarrow> Inl CastError)"

text \<open>Every JavaScript object, and so every array and every document, is truthy.\<close>

definition truthy_object :: "'a \<Rightarrow> bool" where
  "truthy_object x = True"

definition truthy_number :: "nat \<Rightarrow> bool" where
  "truthy_number n = (n \<noteq> 0)"

text \<open>\<^verbatim>\<open>findByIdAndUpdate(id, update, {new: true})\<close> yields the document as it is after
  the update, \<^verbatim>\<open>findByIdAndRemove(id)\<close> the document as it was; both yield
  \<^verbatim>\<open>null\<close> (\<open>None\<close>) when no document has that \<^verbatim>\<open>_id\<close>.\<close>

definition findByIdAndUpdate ::
  "'a collection \<Rightarrow> oid \<Rightarrow> ('a \<Rightarrow> 'a) \<Rightarrow> 'a collection \<times> (oid \<times> 'a) option" where
  "findByIdAndUpdate c i f = (let c' = updateOne i f c in (c', findById c' i))"

definition findByIdAndRemove ::
  "'a collection \<Rightarrow> oid \<Rightarrow> 'a collection \<times> (oid \<times> 'a) option" where
  "findByIdAndRemove c i = (removeOne i c, findById c i)"

subsection \<open>Responses\<close>

text \<open>A reference after \<^verbatim>\<open>populate\<close>: the field was not set, or no document has that
  \<^verbatim>\<open>_id\<close> (\<^verbatim>\<open>null\<close>), or the selected fields of the document found.\<close>

datatype 'a populated = Undefined | Null | Doc 'a

type_synonym category_view = "oid \<times> string"

type_synonym product_view = "oid \<times> string \<times> string \<times> category_view populated"

type_synonym 'n item_view = "oid \<times> 'n \<times> product_view populated"

type_synonym user_view = "oid \<times> string"

type_synonym 'n order_view = "('n, user_view populated, 'n item_view) order_doc"

datatype 'n payload =
    NoData
  | OrderData "oid \<times> 'n order"
  | OrdersData "(oid \<times> 'n order) list"
  | OrderView "oid \<times> 'n order_view"
  | OrderViews "(oid \<times> 'n order_view) list"
  | Count nat
  | TotalSales 'n

record 'n response =
  http_status :: nat
  success :: bool
  message :: "string option"
  error :: "err option"
  data :: "'n payload"

definition ok :: "nat \<Rightarrow> string \<Rightarrow> 'n payload \<Rightarrow> 'n response" where
  "ok c m d = \<lparr>http_status = c, success = True, message = Some m, error = None, data = d\<rparr>"

definition failure :: "nat \<Rightarrow> err \<Rightarrow> 'n response" where
  "failure c e = \<lparr>http_status = c, success = False, message = None, error = Some e, data = NoData\<rparr>"

section \<open>Order Query Service\<close>

text \<open>\<^verbatim>\<open>.select('-shippingAddress1 -shippingAddress2 -city -zip -country')\<close>\<close>

definition select_without_address :: "('n, 'u, 'i) order_doc \<Rightarrow> ('n, 'u, 'i) order_doc" where
  "select_without_address x =
     x\<lparr>shippingAddress1 := None, shippingAddress2 := None, city := None,
       zip_code := None, country := None\<rparr>"

text \<open>\<^verbatim>\<open>.populate('user', 'name')\<close>\<close>

definition populate_user ::
  "'n store \<Rightarrow> ('n, oid option, 'i) order_doc \<Rightarrow> ('n, user_view populated, 'i) order_doc" where
  "populate_user s x =
     \<lparr>orderItems = orderItems x, shippingAddress1 = shippingAddress1 x,
      shippingAddress2 = shippingAddress2 x, city = city x, zip_code = zip_code x,
      country = country x, phone = phone x, status = status x, totalPrice = totalPrice x,
      user = (case user x of None \<Rightarrow> Undefined
              | Some u \<Rightarrow> (case findById (Users s) u of None \<Rightarrow> Null
                           | Some d \<Rightarrow> Doc (fst d, u_name (snd d)))),
      dateOrdered = dateOrdered x\<rparr>"

text \<open>The nested \<^verbatim>\<open>populate\<close> of \<^verbatim>\<open>orderItems\<close>: each line item with its product's
  \<^verbatim>\<open>_id\<close>, \<^verbatim>\<open>name\<close> and \<^verbatim>\<open>description\<close>, each product with its category's
  \<^verbatim>\<open>_id\<close> and \<^verbatim>\<open>name\<close>. An identifier of the array that matches no line item is
  left out of the populated array.\<close>

definition populate_category :: "'n store \<Rightarrow> oid \<Rightarrow> category_view populated" where
  "populate_category s c =
     (case findById (Categories s) c of None \<Rightarrow> Null | Some d \<Rightarrow> Doc (fst d, c_name (snd d)))"

definition populate_product :: "'n store \<Rightarrow> oid option \<Rightarrow> product_view populated" where
  "populate_product s r =
     (case r of None \<Rightarrow> Undefined
      | Some p \<Rightarrow> (case findById (Products s) p of None \<Rightarrow> Null
                   | Some d \<Rightarrow> Doc (fst d, p_name (snd d), p_description (snd d),
                                     populate_category s (p_category (snd d)))))"

definition populate_item :: "'n store \<Rightarrow> oid \<Rightarrow> 'n item_view option" where
  "populate_item s i =
     (case findById (OrderItems s) i of None \<Rightarrow> None
      | Some d \<Rightarrow> Some (fst d, quantity (snd d), populate_product s (product (snd d))))"

definition populate_orderItems ::
  "'n store \<Rightarrow> ('n, 'u, oid) order_doc \<Rightarrow> ('n, 'u, 'n item_view) order_doc" where
  "populate_orderItems s x =
     \<lparr>orderItems = List.map_filter (populate_item s) (orderItems x),
      shippingAddress1 = shippingAddress1 x, shippingAddress2 = shippingAddress2 x,
      city = city x, zip_code = zip_code x, country = country x, phone = phone x,
      status = status x, totalPrice = totalPrice x, user = user x,
      dateOrdered = dateOrdered x\<rparr>"

text \<open>\<^verbatim>\<open>router.get('/')\<close>: all orders, most recent first.\<close>

definition get_orders :: "'n store \<Rightarrow> 'n response" where
  "get_orders s =
     (let allOrders =
            sort_key (\<lambda>d. - int (dateOrdered (snd d)))
              (map (\<lambda>d. (fst d, populate_orderItems s (populate_user s (select_without_address (snd d)))))
                 (Orders s))
      in if \<not> truthy_object allOrders then failure 500 (Message ''Unable to get orders'')
         else ok 200 (if length allOrders = 0 then ''No orders'' else ''Orders found'')
                (OrderViews allOrders))"

text \<open>\<^verbatim>\<open>router.get('/:id')\<close>\<close>

definition get_order_by_id :: "'n store \<Rightarrow> idparam \<Rightarrow> 'n response" where
  "get_order_by_id s p =
     (case cast_id p of Inl e \<Rightarrow> failure 500 e
      | Inr i \<Rightarrow>
          (case findById (Orders s) i of
             None \<Rightarrow> failure 500 (Message ''Unable to get order with this id'')
           | Some d \<Rightarrow>
               ok 200 ''Order with this id has been found''
                 (OrderView (fst d, populate_orderItems s (populate_user s (snd d))))))"

section \<open>Order placement\<close>

text \<open>The JSON body of \<^verbatim>\<open>POST /orders\<close>. A field the caller left out is \<open>None\<close>.
  The caller may send a \<^verbatim>\<open>totalPrice\<close>; the handler never reads it.\<close>

record 'n item_body =
  b_quantity :: "'n option"
  b_product :: "idparam option"

record 'n order_body =
  b_orderItems :: "'n item_body list option"
  b_shippingAddress1 :: "string option"
  b_shippingAddress2 :: "string option"
  b_city :: "string option"
  b_zip :: "string option"
  b_country :: "string option"
  b_phone :: "string option"
  b_status :: "string option"
  b_totalPrice :: "'n option"
  b_user :: "idparam option"

subsection \<open>Line Item Materializer\<close>

text \<open>Validation of a new OrderItem against its schema: \<^verbatim>\<open>quantity\<close> is required,
  \<^verbatim>\<open>product\<close> must cast to an ObjectId when it is given.\<close>

definition validate_orderItem :: "'n item_body \<Rightarrow> err + 'n order_item" where
  "validate_orderItem orderItem =
     (case b_quantity orderItem of None \<Rightarrow> Inl ValidationError
      | Some q \<Rightarrow>
          (case b_product orderItem of
             None \<Rightarrow> Inr \<lparr>quantity = q, product = None\<rparr>
           | Some Malformed \<Rightarrow> Inl ValidationError
           | Some (ObjectId p) \<Rightarrow> Inr \<lparr>quantity = q, product = Some p\<rparr>))"

text \<open>The callback of the first \<^verbatim>\<open>map\<close>: \<^verbatim>\<open>new OrderItem(...)\<close> draws the next
  ObjectId, \<^verbatim>\<open>save()\<close> validates and inserts, and the callback returns the
  \<^verbatim>\<open>_id\<close> of the saved document.\<close>

definition save_orderItem :: "'n store \<Rightarrow> 'n item_body \<Rightarrow> 'n store \<times> (err + oid)" where
  "save_orderItem s orderItem =
     (let i = nextId s; s1 = s\<lparr>nextId := Suc i\<rparr> in
      case validate_orderItem orderItem of
        Inl e \<Rightarrow> (s1, Inl e)
      | Inr newOrderItem \<Rightarrow>
          (case insertOne (OrderItems s1) (i, newOrderItem) of
             Inl e \<Rightarrow> (s1, Inl e)
           | Inr c \<Rightarrow> (s1\<lparr>OrderItems := c\<rparr>, Inr i)))"

text \<open>The callback runs once per element, in the order of the array; a rejected save
  does not undo or prevent the others.\<close>

fun save_orderItems :: "'n store \<Rightarrow> 'n item_body list \<Rightarrow> 'n store \<times> (err + oid) list" where
  "save_orderItems s [] = (s, [])"
| "save_orderItems s (orderItem # rest) =
     (case save_orderItem s orderItem of
        (s1, r) \<Rightarrow> (case save_orderItems s1 rest of (s2, rs) \<Rightarrow> (s2, r # rs)))"

text \<open>\<^verbatim>\<open>Promise.all\<close>: the values in the order of the promises, or a rejection.\<close>

fun promise_all :: "(err + 'a) list \<Rightarrow> err + 'a list" where
  "promise_all [] = Inr []"
| "promise_all (Inl e # rs) = Inl e"
| "promise_all (Inr v # rs) = (case promise_all rs of Inl e \<Rightarrow> Inl e | Inr vs \<Rightarrow> Inr (v # vs))"

definition orderItemsIds ::
  "'n store \<Rightarrow> 'n item_body list \<Rightarrow> 'n store \<times> (err + oid list)" where
  "orderItemsIds s items = (case save_orderItems s items of (s1, rs) \<Rightarrow> (s1, promise_all rs))"

subsection \<open>Pricing Calculator\<close>

text \<open>The callback of the second \<^verbatim>\<open>map\<close>. The line item is read back with its
  product populated, and the subtotal is the product, in the program's numbers, of the
  quantity and the price; \<^verbatim>\<open>item.product.price\<close> raises a TypeError when the product
  reference is unset or matches no product. When the line item itself is not found the
  callback returns \<^verbatim>\<open>undefined\<close> (\<open>None\<close>).\<close>

definition subtotal :: "('n::times) store \<Rightarrow> oid \<Rightarrow> err + 'n option" where
  "subtotal s i =
     (case findById (OrderItems s) i of
        None \<Rightarrow> Inr None
      | Some item \<Rightarrow>
          (case product (snd item) of
             None \<Rightarrow> Inl TypeError
           | Some p \<Rightarrow>
               (case findById (Products s) p of
                  None \<Rightarrow> Inl TypeError
                | Some pr \<Rightarrow> Inr (Some (quantity (snd item) * p_price (snd pr))))))"

definition subtotals :: "('n::times) store \<Rightarrow> oid list \<Rightarrow> err + 'n option list" where
  "subtotals s ids = promise_all (map (subtotal s) ids)"

text \<open>\<^verbatim>\<open>(a, b) => a + b\<close>: the addition of numbers, where \<^verbatim>\<open>b\<close> may be
  \<^verbatim>\<open>undefined\<close>. \<^verbatim>\<open>reduce\<close> applies it from \<^verbatim>\<open>0\<close>, left to right.\<close>

fun js_plus :: "('n::plus) jsnum \<Rightarrow> 'n option \<Rightarrow> 'n jsnum" where
  "js_plus (Num a) (Some b) = Num (a + b)"
| "js_plus _ _ = NaN"

definition reduce_sum :: "('n::{plus,zero}) option list \<Rightarrow> 'n jsnum" where
  "reduce_sum xs = foldl js_plus (Num 0) xs"

subsection \<open>Order Aggregate Builder\<close>

text \<open>\<^verbatim>\<open>new Order({...})\<close>: the line item identifiers, the computed total and the
  caller's shipping, contact, status and user fields; \<open>now\<close> is the order timestamp.
  The caller's \<^verbatim>\<open>totalPrice\<close> is not among them.\<close>

definition new_Order ::
  "nat \<Rightarrow> oid list \<Rightarrow> 'n \<Rightarrow> oid option \<Rightarrow> 'n order_body \<Rightarrow> 'n order" where
  "new_Order now ids t u body =
     \<lparr>orderItems = ids,
      shippingAddress1 = b_shippingAddress1 body,
      shippingAddress2 = b_shippingAddress2 body,
      city = b_city body, zip_code = b_zip body, country = b_country body,
      phone = b_phone body, status = b_status body, totalPrice = t, user = u,
      dateOrdered = now\<rparr>"

text \<open>A reference field of the body: absent, or cast to an ObjectId, or rejected.\<close>

definition cast_ref :: "idparam option \<Rightarrow> err + oid option" where
  "cast_ref r =
     (case r of None \<Rightarrow> Inr None
      | Some Malformed \<Rightarrow> Inl ValidationError
      | Some (ObjectId i) \<Rightarrow> Inr (Some i))"

text \<open>Validation of the new Order. \<open>order_valid\<close> stands for the validators and casts
  of the Order schema, which is not among the sources, applied to the order built from
  a total that is a number. A \<^verbatim>\<open>user\<close> that does not cast to an ObjectId is
  rejected by the type of the path, and so is the \<^verbatim>\<open>NaN\<close> of a sum with an
  \<^verbatim>\<open>undefined\<close> subtotal.\<close>

definition validate_order ::
  "('n order \<Rightarrow> bool) \<Rightarrow> nat \<Rightarrow> oid list \<Rightarrow> 'n jsnum \<Rightarrow> 'n order_body \<Rightarrow> err + 'n order"
  where
  "validate_order order_valid now ids total_price body =
     (case total_price of NaN \<Rightarrow> Inl ValidationError
      | Num t \<Rightarrow>
          (case cast_ref (b_user body) of
             Inl e \<Rightarrow> Inl e
           | Inr u \<Rightarrow>
               (let x = new_Order now ids t u body
                in if order_valid x then Inr x else Inl ValidationError)))"

text \<open>\<^verbatim>\<open>router.post('/')\<close>. \<open>now\<close> is the clock at the time of the request.\<close>

definition post_order ::
  "(('n::{times,plus,zero}) order \<Rightarrow> bool) \<Rightarrow> nat \<Rightarrow> 'n store \<Rightarrow> 'n order_body
     \<Rightarrow> 'n store \<times> 'n response" where
  "post_order order_valid now s body =
     (case b_orderItems body of
        None \<Rightarrow> (s, failure 500 TypeError)
      | Some items \<Rightarrow>
          (case orderItemsIds s items of
             (s1, Inl e) \<Rightarrow> (s1, failure 500 e)
           | (s1, Inr ids) \<Rightarrow>
               (case subtotals s1 ids of
                  Inl e \<Rightarrow> (s1, failure 500 e)
                | Inr subs \<Rightarrow>
                    (let total_price = reduce_sum subs;
                         i = nextId s1;
                         s2 = s1\<lparr>nextId := Suc i\<rparr>
                     in case validate_order order_valid now ids total_price body of
                          Inl e \<Rightarrow> (s2, failure 500 e)
                        | Inr x \<Rightarrow>
                            (case insertOne (Orders s2) (i, x) of
                               Inl e \<Rightarrow> (s2, failure 500 e)
                             | Inr c \<Rightarrow>
                                 (let savedOrder = (i, x) in
                                  if \<not> truthy_object savedOrder
                                  then (s2\<lparr>Orders := c\<rparr>,
                                        failure 400 (Message ''Unable to post this order''))
                                  else (s2\<lparr>Orders := c\<rparr>,
                                        ok 201 ''This order has been posted''
                                          (OrderData savedOrder))))))))"

section \<open>Order Lifecycle Manager\<close>

text \<open>\<^verbatim>\<open>router.put('/:id')\<close>. The update document is \<^verbatim>\<open>{status: req.body.status}\<close>;
  a key whose value is \<^verbatim>\<open>undefined\<close> unsets the field.\<close>

definition set_status :: "string option \<Rightarrow> 'n order \<Rightarrow> 'n order" where
  "set_status st x = x\<lparr>status := st\<rparr>"

definition put_order ::
  "'n store \<Rightarrow> idparam \<Rightarrow> string option \<Rightarrow> 'n store \<times> 'n response" where
  "put_order s p st =
     (case cast_id p of Inl e \<Rightarrow> (s, failure 500 e)
      | Inr i \<Rightarrow>
          (case findByIdAndUpdate (Orders s) i (set_status st) of
             (c, None) \<Rightarrow>
               (s\<lparr>Orders := c\<rparr>, failure 400 (Message ''Unable to update status for this order''))
           | (c, Some x) \<Rightarrow>
               (s\<lparr>Orders := c\<rparr>,
                ok 200 ''The status for this order has been updated'' (OrderData x))))"

text \<open>\<^verbatim>\<open>router.delete('/:id')\<close>. The handler starts one removal per line item
  identifier of the removed order and answers without awaiting them: the third
  component lists the removals that are started, \<open>run_removals\<close> is the store once
  they have been carried out.\<close>

definition delete_order ::
  "'n store \<Rightarrow> idparam \<Rightarrow> 'n store \<times> 'n response \<times> oid list" where
  "delete_order s p =
     (case cast_id p of Inl e \<Rightarrow> (s, failure 500 e, [])
      | Inr i \<Rightarrow>
          (case findByIdAndRemove (Orders s) i of
             (c, None) \<Rightarrow>
               (s\<lparr>Orders := c\<rparr>, failure 404 (Message ''Unable to find and delete this order''), [])
           | (c, Some x) \<Rightarrow>
               (s\<lparr>Orders := c\<rparr>, ok 200 ''This order has been deleted'' (OrderData x),
                orderItems (snd x))))"

fun run_removals :: "'n store \<Rightarrow> oid list \<Rightarrow> 'n store" where
  "run_removals s [] = s"
| "run_removals s (i # rest) =
     run_removals (s\<lparr>OrderItems := fst (findByIdAndRemove (OrderItems s) i)\<rparr>) rest"

section \<open>Sales Reporting\<close>

text \<open>\<^verbatim>\<open>router.get('/get/count')\<close>\<close>

definition get_count :: "'n store \<Rightarrow> 'n response" where
  "get_count s =
     (let count = length (Orders s) in
      if \<not> truthy_number count then failure 500 (Message ''Unable to get count of orders'')
      else ok 200 ''Count of orders has been generated'' (Count count))"

text \<open>The pipeline \<^verbatim>\<open>[{$group: {_id: 0, totalsales: {$sum: '$totalPrice'}}}]\<close>: one
  group holding the sum, accumulated from 0 over the orders, when there is at least
  one order, no group otherwise.\<close>

definition aggregate_totalsales :: "('n::{plus,zero}) order collection \<Rightarrow> 'n list" where
  "aggregate_totalsales c =
     (if c = [] then [] else [foldl (+) 0 (map (\<lambda>d. totalPrice (snd d)) c)])"

text \<open>\<^verbatim>\<open>Array.prototype.pop\<close>: the last element, \<^verbatim>\<open>undefined\<close> on an empty array.\<close>

definition pop :: "'a list \<Rightarrow> 'a option" where
  "pop xs = (if xs = [] then None else Some (last xs))"

text \<open>\<^verbatim>\<open>router.get('/get/totalsales')\<close>. Reading \<^verbatim>\<open>.totalsales\<close> of
  \<^verbatim>\<open>undefined\<close> raises a TypeError, which the handler catches.\<close>

definition get_totalsales :: "('n::{plus,zero}) store \<Rightarrow> 'n response" where
  "get_totalsales s =
     (let totalsales = aggregate_totalsales (Orders s) in
      if \<not> truthy_object totalsales
      then failure 500 (Message ''Unable to get totalsales of orders'')
      else (case pop totalsales of
              None \<Rightarrow> failure 500 TypeError
            | Some g \<Rightarrow> ok 200 ''The totalsales of orders has been generated'' (TotalSales g)))"

text \<open>\<^verbatim>\<open>router.get('/get/orders/:userid')\<close>\<close>

definition find_by_user :: "'n order collection \<Rightarrow> oid \<Rightarrow> 'n order collection" where
  "find_by_user c u = filter (\<lambda>d. user (snd d) = Some u) c"

definition get_orders_by_user :: "'n store \<Rightarrow> idparam \<Rightarrow> 'n response" where
  "get_orders_by_user s p =
     (case cast_id p of Inl e \<Rightarrow> failure 500 e
      | Inr u \<Rightarrow>
          (let orders = find_by_user (Orders s) u in
           if \<not> truthy_object orders
           then failure 400 (Message ''Unable to get orders for this user'')
           else ok 200 ''Orders found for this user'' (OrdersData orders)))"

section \<open>Credential validation\<close>

text \<open>\<^verbatim>\<open>helpers/authJwt.js\<close>. The payload of a bearer credential is what the login route
  signs: the user's id and the user's admin flag. \<open>bearer\<close> is the payload of the
  request's credential when the credential is present, well signed and not expired.
  A flag is \<^verbatim>\<open>true\<close>, \<^verbatim>\<open>false\<close> or absent.\<close>

datatype http_method = GET | HEAD | POST | PUT | PATCH | DELETE | OPTIONS

record token_payload =
  userId :: oid
  userIsAdmin :: "bool option"

record request =
  http_method :: http_method
  pathname :: string
  bearer :: "token_payload option"

definition truthy :: "bool option \<Rightarrow> bool" where
  "truthy v = (v = Some True)"

text \<open>\<^verbatim>\<open>isRevoked\<close> returns \<^verbatim>\<open>true\<close> for a non-admin and falls off its end, so
  returns \<^verbatim>\<open>undefined\<close>, otherwise.\<close>

definition isRevoked :: "token_payload \<Rightarrow> bool option" where
  "isRevoked token = (if \<not> truthy (userIsAdmin token) then Some True else None)"

text \<open>A pattern \<^verbatim>\<open>/lit(.*)/\<close> is not anchored: it matches a path in which the literal
  occurs anywhere.\<close>

fun starts_with :: "string \<Rightarrow> string \<Rightarrow> bool" where
  "starts_with [] s = True"
| "starts_with (a # p) [] = False"
| "starts_with (a # p) (b # s) = (a = b \<and> starts_with p s)"

fun occurs_in :: "string \<Rightarrow> string \<Rightarrow> bool" where
  "occurs_in p [] = starts_with p []"
| "occurs_in p (b # s) = (starts_with p (b # s) \<or> occurs_in p s)"

text \<open>The paths of \<^verbatim>\<open>unless\<close>; \<open>api\<close> is the configured \<^verbatim>\<open>API_VERSION\<close>.\<close>

definition unless :: "string \<Rightarrow> request \<Rightarrow> bool" where
  "unless api r =
     (pathname r = api @ ''/users/login''
      \<or> pathname r = api @ ''/users/register''
      \<or> (occurs_in ''/api/v1/products'' (pathname r) \<and> http_method r \<in> {GET, OPTIONS})
      \<or> (occurs_in ''/api/v1/categories'' (pathname r) \<and> http_method r \<in> {GET, OPTIONS})
      \<or> (occurs_in ''/public/uploads'' (pathname r) \<and> http_method r \<in> {GET, OPTIONS}))"

text \<open>The gate on a request that comes to it: exempted by \<^verbatim>\<open>unless\<close>, or else let
  through when its credential is valid and not revoked. An \<^verbatim>\<open>OPTIONS\<close> request is
  answered by the CORS middleware, which is registered first, so the statements below
  are about the other methods.\<close>

datatype verdict = Next | UnauthorizedError

definition authJwt :: "string \<Rightarrow> request \<Rightarrow> verdict" where
  "authJwt api r =
     (if unless api r then Next
      else (case bearer r of
              None \<Rightarrow> UnauthorizedError
            | Some token \<Rightarrow> if truthy (isRevoked token) then UnauthorizedError else Next))"

text \<open>The paths of the orders router, mounted at \<^verbatim>\<open>/api/v1/orders\<close>: the
  collection itself, the two fixed reports, and the routes with one parameter
  (\<^verbatim>\<open>/:id\<close>, \<^verbatim>\<open>/get/orders/:userid\<close>), a parameter being a segment without a
  slash.\<close>

definition order_route :: "string \<Rightarrow> bool" where
  "order_route p =
     (p = ''/api/v1/orders''
      \<or> p = ''/api/v1/orders/get/count''
      \<or> p = ''/api/v1/orders/get/totalsales''
      \<or> (starts_with ''/api/v1/orders/'' p \<and> CHR ''/'' \<notin> set (drop (length ''/api/v1/orders/'') p))
      \<or> (starts_with ''/api/v1/orders/get/orders/'' p \<and> CHR ''/'' \<notin> set (drop (length ''/api/v1/orders/get/orders/'') p)))"

section \<open>Notions used in the statements\<close>

text \<open>The ObjectId generator has not yet reached an identifier that a line item or an
  order already carries.\<close>

definition fresh_ids :: "'n store \<Rightarrow> bool" where
  "fresh_ids s =
     ((\<forall>d\<in>set (OrderItems s). fst d < nextId s) \<and> (\<forall>d\<in>set (Orders s). fst d < nextId s))"

text \<open>No two documents of a collection share an \<^verbatim>\<open>_id\<close>.\<close>

definition unique_ids :: "'a collection \<Rightarrow> bool" where
  "unique_ids c = distinct (map fst c)"

text \<open>A (quantity, product reference) pair as an element of the request's
  \<^verbatim>\<open>orderItems\<close> array, and as the fields of the line item made from it.\<close>

definition item_of_pair :: "'n \<times> oid \<Rightarrow> 'n item_body" where
  "item_of_pair qp = \<lparr>b_quantity = Some (fst qp), b_product = Some (ObjectId (snd qp))\<rparr>"

definition line_item_of_pair :: "'n \<times> oid \<Rightarrow> 'n order_item" where
  "line_item_of_pair qp = \<lparr>quantity = fst qp, product = Some (snd qp)\<rparr>"

text \<open>The price of a product as the store has it.\<close>

definition price_at :: "'n store \<Rightarrow> oid \<Rightarrow> 'n option" where
  "price_at s p = map_option (\<lambda>d. p_price (snd d)) (findById (Products s) p)"

text \<open>The shipping-address fields of an order or of its representation.\<close>

definition address_fields :: "('n, 'u, 'i) order_doc \<Rightarrow> string option list" where
  "address_fields x = [shippingAddress1 x, shippingAddress2 x, city x, zip_code x, country x]"

subsection \<open>A small store\<close>

text \<open>One customer, one category, two products priced 10 and 5, and one order of two
  units of the first product.\<close>

definition an_order :: "rat order" where
  "an_order =
     \<lparr>orderItems = [5], shippingAddress1 = Some ''Flowers Street, 45'',
      shippingAddress2 = Some ''1-B'', city = Some ''Prague'', zip_code = Some ''00000'',
      country = Some ''Czech Republic'', phone = Some ''+420702241333'',
      status = Some ''Pending'', totalPrice = 20, user = Some 1, dateOrdered = 100\<rparr>"

definition a_store :: "rat store" where
  "a_store =
     \<lparr>Users = [(1, \<lparr>u_name = ''user 1''\<rparr>)],
      Categories = [(2, \<lparr>c_name = ''Category 10''\<rparr>)],
      Products =
        [(3, \<lparr>p_name = ''Product 1'', p_description = ''Product 1 Description'',
               p_price = 10, p_category = 2\<rparr>),
         (4, \<lparr>p_name = ''Product 2'', p_description = ''Product 2 Description'',
               p_price = 5, p_category = 2\<rparr>)],
      OrderItems = [(5, \<lparr>quantity = 2, product = Some 3\<rparr>)],
      Orders = [(6, an_order)],
      nextId = 7\<rparr>"

text \<open>The request of the scenario: three units of the first product, two of the second.\<close>

definition a_body :: "rat order_body" where
  "a_body =
     \<lparr>b_orderItems = Some [item_of_pair (3, 3), item_of_pair (2, 4)],
      b_shippingAddress1 = Some ''Flowers Street, 45'', b_shippingAddress2 = Some ''1-B'',
      b_city = Some ''Prague'', b_zip = Some ''00000'', b_country = Some ''Czech Republic'',
      b_phone = Some ''+420702241333'', b_status = Some ''Pending'',
      b_totalPrice = Some 1, b_user = Some (ObjectId 1)\<rparr>"

section \<open>Facts about collections\<close>

lemma findById_Nil: "findById [] i = None"
  by (simp add: findById_def)

lemma findById_Cons: "findById (d # c) i = (if fst d = i then Some d else findById c i)"
  by (simp add: findById_def)

lemma findById_None_iff: "findById c i = None \<longleftrightarrow> i \<notin> fst ` set c"
  by (force simp: findById_def find_None_iff)

lemma findById_Some_fst: "findById c i = Some d \<Longrightarrow> fst d = i \<and> d \<in> set c"
  by (auto simp: findById_def find_Some_iff)

lemma findById_append:
  "findById (c @ c') i = (case findById c i of None \<Rightarrow> findById c' i | Some d \<Rightarrow> Some d)"
  by (induction c) (auto simp: findById_def)

lemma removeOne_absent: "findById c i = None \<Longrightarrow> removeOne i c = c"
  by (induction c) (auto simp: findById_def)

section \<open>Sales Reporting: count and total sales\<close>

text \<open>
  C7. \<^verbatim>\<open>GET /orders/get/count\<close> on a store without orders: the count is 0, which
  the handler's test \<^verbatim>\<open>!count\<close> takes for a failure, so the answer is 500 and not
  200 with a count of 0.
\<close>

theorem get_count_no_orders:
  "get_count (s\<lparr>Orders := []\<rparr>) = failure 500 (Message ''Unable to get count of orders'')"
  by (simp add: get_count_def truthy_number_def)

lemma get_count_some_orders:
  "Orders s \<noteq> [] \<Longrightarrow>
   get_count s = ok 200 ''Count of orders has been generated'' (Count (length (Orders s)))"
  by (simp add: get_count_def truthy_number_def)

text \<open>
  C2. \<^verbatim>\<open>GET /orders/get/totalsales\<close> on a store without orders: the aggregation
  yields no group, \<^verbatim>\<open>pop()\<close> yields \<^verbatim>\<open>undefined\<close>, reading its
  \<^verbatim>\<open>totalsales\<close> raises, and the answer is 500 and not a total of 0.
\<close>

theorem get_totalsales_no_orders:
  "get_totalsales (s\<lparr>Orders := []\<rparr>) = failure 500 TypeError"
  by (simp add: get_totalsales_def aggregate_totalsales_def truthy_object_def pop_def)

lemma get_totalsales_some_orders:
  "Orders s \<noteq> [] \<Longrightarrow>
   get_totalsales s =
     ok 200 ''The totalsales of orders has been generated''
       (TotalSales (foldl (+) 0 (map (\<lambda>d. totalPrice (snd d)) (Orders s))))"
  by (simp add: get_totalsales_def aggregate_totalsales_def truthy_object_def pop_def)

section \<open>Sales Reporting: orders of a user\<close>

text \<open>
  C10. For every user id, \<^verbatim>\<open>GET /orders/get/orders/:userid\<close> answers 200 with the
  orders whose user reference is that id, in the order of the collection, possibly
  none; and whatever the parameter is, the answer is never the 400 of the handler's
  \<^verbatim>\<open>!orders\<close> branch, since the result of the query is an array.
\<close>

theorem get_orders_by_user_ok:
  "get_orders_by_user s (ObjectId u) =
     ok 200 ''Orders found for this user''
       (OrdersData (filter (\<lambda>d. user (snd d) = Some u) (Orders s)))
   \<and> http_status (get_orders_by_user s p) \<noteq> 400"
  by (cases p)
    (simp_all add: get_orders_by_user_def cast_id_def find_by_user_def truthy_object_def
       ok_def failure_def)

section \<open>Order Lifecycle Manager: deleting an order that does not exist\<close>

text \<open>
  C9. When no stored order has the given id, \<^verbatim>\<open>DELETE /orders/:id\<close> answers 404,
  leaves the store as it was and starts no removal of a line item.
\<close>

theorem delete_order_not_found:
  "findById (Orders s) i = None \<Longrightarrow>
   delete_order s (ObjectId i) =
     (s, failure 404 (Message ''Unable to find and delete this order''), [])"
  by (simp add: delete_order_def cast_id_def findByIdAndRemove_def removeOne_absent)

theorem delete_order_not_found_witness:
  "findById (Orders a_store) 9 = None
   \<and> delete_order a_store (ObjectId 9) =
       (a_store, failure 404 (Message ''Unable to find and delete this order''), [])"
  using delete_order_not_found [of a_store 9]
  by (simp add: a_store_def findById_Cons findById_Nil)

section \<open>Order Lifecycle Manager: updating the status\<close>

lemma updateOne_split:
  "findById c i = Some d \<Longrightarrow>
   \<exists>pre post. c = pre @ d # post \<and> i \<notin> fst ` set pre \<and> fst d = i
      \<and> updateOne i f c = pre @ (i, f (snd d)) # post"
proof (induction c)
  case Nil
  then show ?case by (simp add: findById_Nil)
next
  case (Cons e c)
  show ?case
  proof (cases "fst e = i")
    case True
    with Cons.prems have "d = e" by (simp add: findById_Cons)
    with True have "e # c = [] @ d # c \<and> i \<notin> fst ` set [] \<and> fst d = i
        \<and> updateOne i f (e # c) = [] @ (i, f (snd d)) # c"
      by simp
    then show ?thesis by blast
  next
    case False
    with Cons.prems have "findById c i = Some d" by (simp add: findById_Cons)
    from Cons.IH [OF this] obtain pre post where
      "c = pre @ d # post" "i \<notin> fst ` set pre" "fst d = i"
      "updateOne i f c = pre @ (i, f (snd d)) # post"
      by blast
    with False have "e # c = (e # pre) @ d # post \<and> i \<notin> fst ` set (e # pre) \<and> fst d = i
        \<and> updateOne i f (e # c) = (e # pre) @ (i, f (snd d)) # post"
      by auto
    then show ?thesis by blast
  qed
qed

lemma findById_updateOne_same:
  "findById c i = Some d \<Longrightarrow> findById (updateOne i f c) i = Some (i, f (snd d))"
  by (induction c) (auto simp: findById_Cons findById_Nil)

lemma findById_updateOne_other:
  "j \<noteq> i \<Longrightarrow> findById (updateOne i f c) j = findById c j"
  by (induction c) (auto simp: findById_Cons findById_Nil)

text \<open>
  C6. For an existing order \<open>x\<close> with id \<open>i\<close> and a status string \<open>st\<close>,
  \<^verbatim>\<open>PUT /orders/:id\<close> answers 200 with \<open>x\<close> in which the status, and nothing else,
  is overwritten by \<open>st\<close>; in the store that document takes the place of \<open>x\<close>, and the
  documents before and after it, and the other collections, are as they were.
\<close>

theorem put_order_overwrites_status_only:
  assumes "findById (Orders s) i = Some (i, x)"
  shows "\<exists>pre post.
           Orders s = pre @ (i, x) # post \<and> i \<notin> fst ` set pre
           \<and> put_order s (ObjectId i) (Some st) =
               (s\<lparr>Orders := pre @ (i, x\<lparr>status := Some st\<rparr>) # post\<rparr>,
                ok 200 ''The status for this order has been updated''
                  (OrderData (i, x\<lparr>status := Some st\<rparr>)))"
proof -
  let ?f = "set_status (Some st)"
  from updateOne_split [OF assms, of ?f] obtain pre post where
    split: "Orders s = pre @ (i, x) # post" "i \<notin> fst ` set pre"
      "updateOne i ?f (Orders s) = pre @ (i, ?f x) # post"
    by auto
  have "findById (updateOne i ?f (Orders s)) i = Some (i, ?f x)"
    using findById_updateOne_same [OF assms, of ?f] by simp
  then have "put_order s (ObjectId i) (Some st) =
      (s\<lparr>Orders := pre @ (i, ?f x) # post\<rparr>,
       ok 200 ''The status for this order has been updated'' (OrderData (i, ?f x)))"
    by (simp add: put_order_def cast_id_def findByIdAndUpdate_def Let_def split(3))
  with split(1,2) show ?thesis
    by (auto simp: set_status_def)
qed

theorem put_order_overwrites_status_only_witness:
  "findById (Orders a_store) 6 = Some (6, an_order)
   \<and> put_order a_store (ObjectId 6) (Some ''Shipped'') =
       (a_store\<lparr>Orders := [(6, an_order\<lparr>status := Some ''Shipped''\<rparr>)]\<rparr>,
        ok 200 ''The status for this order has been updated''
          (OrderData (6, an_order\<lparr>status := Some ''Shipped''\<rparr>)))"
  using put_order_overwrites_status_only [of a_store 6 an_order "''Shipped''"]
  by (auto simp: a_store_def findById_Cons findById_Nil Cons_eq_append_conv)

section \<open>Order Lifecycle Manager: deleting an order\<close>

lemma set_removeOne_subset: "set (removeOne i c) \<subseteq> set c"
  by (induction c) auto

lemma removeOne_keeps_absent:
  "findById c j = None \<Longrightarrow> findById (removeOne i c) j = None"
  using set_removeOne_subset [of i c] by (auto simp: findById_None_iff)

lemma unique_ids_removeOne: "unique_ids c \<Longrightarrow> unique_ids (removeOne i c)"
proof (induction c)
  case Nil
  then show ?case by simp
next
  case (Cons d c)
  then show ?case
    using set_removeOne_subset [of i c] by (auto simp: unique_ids_def)
qed

lemma findById_removeOne_same:
  "unique_ids c \<Longrightarrow> findById (removeOne i c) i = None"
proof (induction c)
  case Nil
  then show ?case by (simp add: findById_Nil)
next
  case (Cons d c)
  then show ?case
    by (auto simp: unique_ids_def findById_Cons findById_None_iff)
qed

lemma findById_removeOne_other:
  "j \<noteq> i \<Longrightarrow> findById (removeOne i c) j = findById c j"
  by (induction c) (auto simp: findById_Cons findById_Nil)

lemma run_removals_keeps_absent:
  "findById (OrderItems s) j = None \<Longrightarrow> findById (OrderItems (run_removals s js)) j = None"
  by (induction js arbitrary: s) (simp_all add: findByIdAndRemove_def removeOne_keeps_absent)

lemma run_removals_Orders: "Orders (run_removals s js) = Orders s"
  by (induction js arbitrary: s) simp_all

lemma run_removals_removes:
  "unique_ids (OrderItems s) \<Longrightarrow> j \<in> set js \<Longrightarrow>
   findById (OrderItems (run_removals s js)) j = None"
proof (induction js arbitrary: s)
  case Nil
  then show ?case by simp
next
  case (Cons k js)
  let ?s1 = "s\<lparr>OrderItems := removeOne k (OrderItems s)\<rparr>"
  have step: "run_removals s (k # js) = run_removals ?s1 js"
    by (simp add: findByIdAndRemove_def)
  have uniq: "unique_ids (OrderItems ?s1)"
    using Cons.prems(1) by (simp add: unique_ids_removeOne)
  show ?case
  proof (cases "j = k")
    case True
    have "findById (OrderItems ?s1) j = None"
      using Cons.prems(1) True by (simp add: findById_removeOne_same)
    then show ?thesis
      unfolding step by (rule run_removals_keeps_absent)
  next
    case False
    with Cons.prems(2) have "j \<in> set js" by simp
    with uniq show ?thesis
      unfolding step by (rule Cons.IH)
  qed
qed

text \<open>When the handler answers, the order is removed and the line items are still
  stored: their removals are started, not awaited.\<close>

lemma delete_order_answers_first:
  "findById (Orders s) i = Some x \<Longrightarrow>
   delete_order s (ObjectId i) =
     (s\<lparr>Orders := removeOne i (Orders s)\<rparr>,
      ok 200 ''This order has been deleted'' (OrderData x), orderItems (snd x))"
  by (simp add: delete_order_def cast_id_def findByIdAndRemove_def)

text \<open>Once the removals the handler has started are carried out, each of the line
  items the order referenced is gone, in a store where an \<^verbatim>\<open>_id\<close> identifies one
  document.\<close>

lemma started_removals_remove_line_items:
  assumes "unique_ids (OrderItems s)" and "findById (Orders s) i = Some x"
  shows "\<forall>j\<in>set (snd (snd (delete_order s (ObjectId i)))).
           findById (OrderItems (run_removals (fst (delete_order s (ObjectId i)))
                      (snd (snd (delete_order s (ObjectId i)))))) j = None"
  using assms by (simp add: delete_order_answers_first run_removals_removes)

text \<open>
  C3. \<^verbatim>\<open>DELETE /orders/:id\<close> does not delete the line items of the order by the time
  it answers: whatever the store and the id, the store that the handler leaves has the
  line items it had. On the small store, deleting order 6 answers 200 with the deleted
  order, and line item 5, which that order referenced, is still found by a lookup.
\<close>

theorem delete_order_leaves_line_items:
  "OrderItems (fst (delete_order s p)) = OrderItems s
   \<and> delete_order a_store (ObjectId 6) =
       (a_store\<lparr>Orders := []\<rparr>, ok 200 ''This order has been deleted'' (OrderData (6, an_order)),
        [5])
   \<and> orderItems an_order = [5]
   \<and> findById (OrderItems (fst (delete_order a_store (ObjectId 6)))) 5 =
       Some (5, \<lparr>quantity = 2, product = Some 3\<rparr>)"
proof -
  have frame: "OrderItems (fst (delete_order s p)) = OrderItems s"
    by (cases p)
      (simp_all add: delete_order_def cast_id_def findByIdAndRemove_def split: option.split)
  have found: "findById (Orders a_store) 6 = Some (6, an_order)"
    by (simp add: a_store_def findById_Cons)
  have run: "delete_order a_store (ObjectId 6) =
      (a_store\<lparr>Orders := []\<rparr>, ok 200 ''This order has been deleted'' (OrderData (6, an_order)),
       [5])"
    using delete_order_answers_first [OF found] by (simp add: a_store_def an_order_def)
  have items: "orderItems an_order = [5]"
    by (simp add: an_order_def)
  have still: "findById (OrderItems (fst (delete_order a_store (ObjectId 6)))) 5 =
      Some (5, \<lparr>quantity = 2, product = Some 3\<rparr>)"
    unfolding run by (simp add: a_store_def findById_Cons)
  from frame run items still show ?thesis
    by simp
qed

section \<open>Line Item Materializer\<close>

lemma validate_item_of_pair:
  "validate_orderItem (item_of_pair qp) = Inr (line_item_of_pair qp)"
  by (simp add: validate_orderItem_def item_of_pair_def line_item_of_pair_def)

lemma save_orderItem_fresh:
  assumes "\<forall>d\<in>set (OrderItems s). fst d < nextId s"
  shows "save_orderItem s (item_of_pair qp) =
           (s\<lparr>OrderItems := OrderItems s @ [(nextId s, line_item_of_pair qp)],
              nextId := Suc (nextId s)\<rparr>,
            Inr (nextId s))"
proof -
  have "nextId s \<notin> fst ` set (OrderItems s)"
    using assms by auto
  then show ?thesis
    by (simp add: save_orderItem_def validate_item_of_pair insertOne_def Let_def)
qed

lemma save_orderItems_fresh:
  "\<forall>d\<in>set (OrderItems s). fst d < nextId s \<Longrightarrow>
   save_orderItems s (map item_of_pair pairs) =
     (s\<lparr>OrderItems :=
          OrderItems s @ zip [nextId s..<nextId s + length pairs] (map line_item_of_pair pairs),
        nextId := nextId s + length pairs\<rparr>,
      map Inr [nextId s..<nextId s + length pairs])"
proof (induction pairs arbitrary: s)
  case Nil
  then show ?case by simp
next
  case (Cons qp pairs)
  let ?s1 = "s\<lparr>OrderItems := OrderItems s @ [(nextId s, line_item_of_pair qp)],
               nextId := Suc (nextId s)\<rparr>"
  have fresh1: "\<forall>d\<in>set (OrderItems ?s1). fst d < nextId ?s1"
    using Cons.prems by (auto simp: less_Suc_eq)
  have upt: "[nextId s..<Suc (nextId s + length pairs)] =
      nextId s # [Suc (nextId s)..<Suc (nextId s + length pairs)]"
    by (rule upt_conv_Cons) simp
  show ?case
    using Cons.IH [OF fresh1] save_orderItem_fresh [OF Cons.prems, of qp]
    by (simp add: upt del: upt_Suc)
qed

lemma promise_all_Inr: "promise_all (map Inr xs) = Inr xs"
  by (induction xs) auto

lemma orderItemsIds_fresh:
  "\<forall>d\<in>set (OrderItems s). fst d < nextId s \<Longrightarrow>
   orderItemsIds s (map item_of_pair pairs) =
     (s\<lparr>OrderItems :=
          OrderItems s @ zip [nextId s..<nextId s + length pairs] (map line_item_of_pair pairs),
        nextId := nextId s + length pairs\<rparr>,
      Inr [nextId s..<nextId s + length pairs])"
  by (simp add: orderItemsIds_def save_orderItems_fresh promise_all_Inr)

lemma findById_zip_upt:
  "k < length xs \<Longrightarrow> findById (zip [n..<n + length xs] xs) (n + k) = Some (n + k, xs ! k)"
proof (induction xs arbitrary: n k)
  case Nil
  then show ?case by simp
next
  case (Cons x xs)
  have upt: "[n..<Suc (n + length xs)] = n # [Suc n..<Suc (n + length xs)]"
    by (rule upt_conv_Cons) simp
  show ?case
  proof (cases k)
    case 0
    then show ?thesis by (simp add: upt findById_Cons del: upt_Suc)
  next
    case (Suc k')
    with Cons.prems have "k' < length xs" by simp
    from Cons.IH [OF this, of "Suc n"] Suc show ?thesis
      by (simp add: upt findById_Cons del: upt_Suc)
  qed
qed

lemma findById_new_items:
  assumes "\<forall>d\<in>set c. fst d < n" and "k < length xs"
  shows "findById (c @ zip [n..<n + length xs] xs) (n + k) = Some (n + k, xs ! k)"
proof -
  have "findById c (n + k) = None"
    using assms(1) by (auto simp: findById_None_iff)
  then show ?thesis
    using assms(2) by (simp add: findById_append findById_zip_upt)
qed

text \<open>
  C5. Given a sequence of (quantity, product reference) pairs, in a store whose ObjectId
  generator is ahead of the line items stored, the materializer succeeds with one
  identifier per pair; the identifiers are new and distinct, the collection grows by
  exactly one line item per pair, and looking up the identifiers in the order returned
  yields the line items of the pairs in the order given.
\<close>

theorem materializer_keeps_order:
  assumes "\<forall>d\<in>set (OrderItems s). fst d < nextId s"
  shows "\<exists>s' ids.
           orderItemsIds s (map item_of_pair pairs) = (s', Inr ids)
           \<and> length ids = length pairs \<and> distinct ids
           \<and> OrderItems s' = OrderItems s @ zip ids (map line_item_of_pair pairs)
           \<and> (\<forall>i\<in>set ids. findById (OrderItems s) i = None)
           \<and> map (findById (OrderItems s')) ids
               = map Some (zip ids (map line_item_of_pair pairs))"
proof -
  let ?n = "nextId s"
  let ?ids = "[?n..<?n + length pairs]"
  let ?docs = "map line_item_of_pair pairs"
  let ?s' = "s\<lparr>OrderItems := OrderItems s @ zip ?ids ?docs, nextId := ?n + length pairs\<rparr>"
  have run: "orderItemsIds s (map item_of_pair pairs) = (?s', Inr ?ids)"
    using assms by (rule orderItemsIds_fresh)
  have new: "\<forall>i\<in>set ?ids. findById (OrderItems s) i = None"
    using assms by (auto simp: findById_None_iff)
  have "map (findById (OrderItems ?s')) ?ids = map Some (zip ?ids ?docs)"
  proof (rule nth_equalityI)
    show "length (map (findById (OrderItems ?s')) ?ids) = length (map Some (zip ?ids ?docs))"
      by simp
  next
    fix k
    assume "k < length (map (findById (OrderItems ?s')) ?ids)"
    then have k: "k < length ?docs" by simp
    from findById_new_items [OF assms k]
    show "map (findById (OrderItems ?s')) ?ids ! k = map Some (zip ?ids ?docs) ! k"
      using k by simp
  qed
  with run new show ?thesis
    by (intro exI [of _ ?s'] exI [of _ ?ids]) simp
qed

theorem materializer_keeps_order_witness:
  "list_all (\<lambda>d. fst d < nextId a_store) (OrderItems a_store)
   \<and> (\<exists>s'. orderItemsIds a_store (map item_of_pair [(3, 3), (2, 4)]) = (s', Inr [7, 8])
          \<and> OrderItems s' =
               OrderItems a_store @ [(7, line_item_of_pair (3, 3)), (8, line_item_of_pair (2, 4))])
   \<and> (\<exists>s' ids.
          orderItemsIds a_store (map item_of_pair [(3, 3), (2, 4)]) = (s', Inr ids)
          \<and> length ids = 2 \<and> distinct ids
          \<and> map (findById (OrderItems s')) ids
              = map Some (zip ids (map line_item_of_pair [(3, 3), (2, 4)])))"
proof -
  have h: "\<forall>d\<in>set (OrderItems a_store). fst d < nextId a_store"
    by (simp add: a_store_def)
  have run: "\<exists>s'. orderItemsIds a_store (map item_of_pair [(3, 3), (2, 4)]) = (s', Inr [7, 8])
          \<and> OrderItems s' =
               OrderItems a_store @ [(7, line_item_of_pair (3, 3)), (8, line_item_of_pair (2, 4))]"
    by (simp add: orderItemsIds_def save_orderItem_def validate_item_of_pair insertOne_def
        a_store_def Let_def)
  from materializer_keeps_order [OF h, of "[(3, 3), (2, 4)]"] h run show ?thesis
    by (auto simp: list_all_iff)
qed

section \<open>Pricing and order creation\<close>

lemma foldl_js_plus: "foldl js_plus (Num a) (map Some xs) = Num (foldl (+) a xs)"
  by (induction xs arbitrary: a) simp_all

lemma reduce_sum_Some: "reduce_sum (map Some xs) = Num (foldl (+) 0 xs)"
  by (simp add: reduce_sum_def foldl_js_plus)

lemma subtotal_new_item:
  assumes "findById (OrderItems s1) i = Some (i, line_item_of_pair qp)"
    and "findById (Products s1) (snd qp) = Some pr"
  shows "subtotal s1 i = Inr (Some (fst qp * p_price (snd pr)))"
  using assms by (simp add: subtotal_def line_item_of_pair_def)

lemma subtotals_new_items:
  assumes fresh: "\<forall>d\<in>set (OrderItems s). fst d < nextId s"
    and priced: "\<forall>qp\<in>set pairs. price_at s (snd qp) \<noteq> None"
    and s1: "OrderItems s1 =
        OrderItems s @ zip [nextId s..<nextId s + length pairs] (map line_item_of_pair pairs)"
      "Products s1 = Products s"
  shows "subtotals s1 [nextId s..<nextId s + length pairs] =
           Inr (map (\<lambda>qp. Some (fst qp * the (price_at s (snd qp)))) pairs)"
proof -
  let ?n = "nextId s"
  let ?ids = "[?n..<?n + length pairs]"
  let ?docs = "map line_item_of_pair pairs"
  have "map (subtotal s1) ?ids =
      map Inr (map (\<lambda>qp. Some (fst qp * the (price_at s (snd qp)))) pairs)"
  proof (rule nth_equalityI)
    show "length (map (subtotal s1) ?ids) =
        length (map Inr (map (\<lambda>qp. Some (fst qp * the (price_at s (snd qp)))) pairs))"
      by simp
  next
    fix k
    assume "k < length (map (subtotal s1) ?ids)"
    then have k: "k < length pairs" by simp
    then have kd: "k < length ?docs" by simp
    have item: "findById (OrderItems s1) (?n + k) = Some (?n + k, line_item_of_pair (pairs ! k))"
      using findById_new_items [OF fresh kd] k by (simp add: s1(1))
    from k priced have "price_at s (snd (pairs ! k)) \<noteq> None"
      by simp
    then obtain pr where pr: "findById (Products s) (snd (pairs ! k)) = Some pr"
      by (auto simp: price_at_def)
    then have price: "the (price_at s (snd (pairs ! k))) = p_price (snd pr)"
      by (simp add: price_at_def)
    have "subtotal s1 (?n + k) = Inr (Some (fst (pairs ! k) * p_price (snd pr)))"
      using item pr by (intro subtotal_new_item) (simp_all add: s1(2))
    with k price
    show "map (subtotal s1) ?ids ! k =
        map Inr (map (\<lambda>qp. Some (fst qp * the (price_at s (snd qp)))) pairs) ! k"
      by simp
  qed
  then show ?thesis
    unfolding subtotals_def by (simp only: promise_all_Inr)
qed

lemma post_order_valid_request:
  assumes fresh: "fresh_ids s"
    and items: "b_orderItems body = Some (map item_of_pair pairs)"
    and priced: "\<forall>qp\<in>set pairs. price_at s (snd qp) \<noteq> None"
    and usr: "b_user body = map_option ObjectId u"
    and valid: "order_valid
        (new_Order now [nextId s..<nextId s + length pairs]
           (foldl (+) 0 (map (\<lambda>qp. fst qp * the (price_at s (snd qp))) pairs)) u body)"
  shows "post_order order_valid now s body =
           (let n = nextId s; ids = [n..<n + length pairs];
                x = new_Order now ids
                      (foldl (+) 0 (map (\<lambda>qp. fst qp * the (price_at s (snd qp))) pairs)) u body
            in (s\<lparr>OrderItems := OrderItems s @ zip ids (map line_item_of_pair pairs),
                  nextId := Suc (n + length pairs),
                  Orders := Orders s @ [(n + length pairs, x)]\<rparr>,
                ok 201 ''This order has been posted'' (OrderData (n + length pairs, x))))"
proof -
  let ?n = "nextId s"
  let ?ids = "[?n..<?n + length pairs]"
  let ?s1 = "s\<lparr>OrderItems := OrderItems s @ zip ?ids (map line_item_of_pair pairs),
               nextId := ?n + length pairs\<rparr>"
  let ?subs = "map (\<lambda>qp. fst qp * the (price_at s (snd qp))) pairs"
  let ?x = "new_Order now ?ids (foldl (+) 0 ?subs) u body"
  have f1: "\<forall>d\<in>set (OrderItems s). fst d < nextId s"
    and f2: "\<forall>d\<in>set (Orders s). fst d < nextId s"
    using fresh by (simp_all add: fresh_ids_def)
  have mat: "orderItemsIds s (map item_of_pair pairs) = (?s1, Inr ?ids)"
    using f1 by (rule orderItemsIds_fresh)
  have "subtotals ?s1 ?ids = Inr (map (\<lambda>qp. Some (fst qp * the (price_at s (snd qp)))) pairs)"
    using f1 priced by (rule subtotals_new_items) simp_all
  then have subs: "subtotals ?s1 ?ids = Inr (map Some ?subs)"
    by (simp only: map_map comp_def)
  have red: "reduce_sum (map Some ?subs) = Num (foldl (+) 0 ?subs)"
    by (rule reduce_sum_Some)
  have cast: "cast_ref (b_user body) = Inr u"
    by (cases u) (simp_all add: usr cast_ref_def)
  have val: "validate_order order_valid now ?ids (Num (foldl (+) 0 ?subs)) body = Inr ?x"
    using valid by (simp add: validate_order_def cast)
  have "?n + length pairs \<notin> fst ` set (Orders s)"
    using f2 by auto
  then have ins: "insertOne (Orders s) (?n + length pairs, ?x) = Inr (Orders s @ [(?n + length pairs, ?x)])"
    by (simp add: insertOne_def)
  show ?thesis
    by (simp add: post_order_def items mat subs red val ins truthy_object_def Let_def
        del: map_map)
qed

lemma new_Order_ignores_totalPrice:
  "new_Order now ids t u (body\<lparr>b_totalPrice := v\<rparr>) = new_Order now ids t u body"
  by (simp add: new_Order_def)

lemma validate_order_ignores_totalPrice:
  "validate_order order_valid now ids t (body\<lparr>b_totalPrice := v\<rparr>) =
   validate_order order_valid now ids t body"
  by (simp add: validate_order_def new_Order_ignores_totalPrice
      split: jsnum.split sum.split)

lemma post_order_ignores_totalPrice:
  "post_order order_valid now s (body\<lparr>b_totalPrice := v\<rparr>) = post_order order_valid now s body"
  by (simp add: post_order_def validate_order_ignores_totalPrice Let_def
      split: option.split prod.split sum.split)

lemma updateOne_keeps:
  "(\<And>x. g (f x) = g x) \<Longrightarrow> map (\<lambda>d. g (snd d)) (updateOne i f c) = map (\<lambda>d. g (snd d)) c"
  by (induction c) auto

lemma set_status_totalPrice: "totalPrice (set_status st x) = totalPrice x"
  by (simp add: set_status_def)

lemma put_order_keeps_totalPrice:
  "map (\<lambda>d. totalPrice (snd d)) (Orders (fst (put_order s p st))) =
   map (\<lambda>d. totalPrice (snd d)) (Orders s)"
proof (cases p)
  case (ObjectId i)
  have "map (\<lambda>d. totalPrice (snd d)) (updateOne i (set_status st) (Orders s)) =
      map (\<lambda>d. totalPrice (snd d)) (Orders s)"
    by (rule updateOne_keeps) (rule set_status_totalPrice)
  then show ?thesis
    by (simp add: ObjectId put_order_def cast_id_def findByIdAndUpdate_def Let_def
        split: option.split)
next
  case Malformed
  then show ?thesis
    by (simp add: put_order_def cast_id_def)
qed

lemma get_order_by_id_found:
  "findById (Orders s) i = Some (i, x) \<Longrightarrow>
   get_order_by_id s (ObjectId i) =
     ok 200 ''Order with this id has been found''
       (OrderView (i, populate_orderItems s (populate_user s x)))"
  by (simp add: get_order_by_id_def cast_id_def)

lemma populate_totalPrice: "totalPrice (populate_orderItems s (populate_user s x)) = totalPrice x"
  by (simp add: populate_orderItems_def populate_user_def)

lemma get_order_by_id_totalPrice:
  "findById (Orders s) i = Some (i, x) \<Longrightarrow>
   \<exists>view. get_order_by_id s (ObjectId i) =
            ok 200 ''Order with this id has been found'' (OrderView (i, view))
          \<and> totalPrice view = totalPrice x"
  using get_order_by_id_found [of s i x] populate_totalPrice [of s x] by blast

text \<open>
  C1. A valid request: the generator is ahead of the stored line items and orders, the
  body's \<^verbatim>\<open>orderItems\<close> are \<open>N\<close> (quantity, product) pairs whose products are in
  the catalogue, the user reference casts, and the schema's validators accept the order
  that the handler builds. Then \<^verbatim>\<open>POST /orders\<close> answers 201 with the order it has
  persisted, the order has \<open>N\<close> line items, and its \<^verbatim>\<open>totalPrice\<close> is the sum of
  quantity times the product's price in the store of the request: the sum and the
  products are those of the program's numbers, the sum taken from 0 in the order of the
  line items. A \<^verbatim>\<open>totalPrice\<close> sent by the caller changes nothing; a status update
  leaves every stored \<^verbatim>\<open>totalPrice\<close> as it is; and whatever the catalogue becomes
  afterwards, the order is read back with the same \<^verbatim>\<open>totalPrice\<close>.
\<close>

theorem post_order_totalPrice:
  assumes "fresh_ids s"
    and "b_orderItems body = Some (map item_of_pair pairs)"
    and "\<forall>qp\<in>set pairs. price_at s (snd qp) \<noteq> None"
    and "b_user body = map_option ObjectId u"
    and "order_valid
        (new_Order now [nextId s..<nextId s + length pairs]
           (foldl (+) 0 (map (\<lambda>qp. fst qp * the (price_at s (snd qp))) pairs)) u body)"
  shows "\<exists>s' i x.
           post_order order_valid now s body =
             (s', ok 201 ''This order has been posted'' (OrderData (i, x)))
           \<and> findById (Orders s') i = Some (i, x)
           \<and> length (orderItems x) = length pairs
           \<and> totalPrice x = foldl (+) 0 (map (\<lambda>qp. fst qp * the (price_at s (snd qp))) pairs)
           \<and> (\<forall>v. post_order order_valid now s (body\<lparr>b_totalPrice := v\<rparr>) =
                   post_order order_valid now s body)
           \<and> (\<forall>p st. map (\<lambda>d. totalPrice (snd d)) (Orders (fst (put_order s' p st))) =
                      map (\<lambda>d. totalPrice (snd d)) (Orders s'))
           \<and> (\<forall>ps. \<exists>view.
                  get_order_by_id (s'\<lparr>Products := ps\<rparr>) (ObjectId i) =
                    ok 200 ''Order with this id has been found'' (OrderView (i, view))
                  \<and> totalPrice view = totalPrice x)"
proof -
  let ?n = "nextId s"
  let ?ids = "[?n..<?n + length pairs]"
  let ?i = "?n + length pairs"
  let ?total = "foldl (+) 0 (map (\<lambda>qp. fst qp * the (price_at s (snd qp))) pairs)"
  let ?x = "new_Order now ?ids ?total u body"
  let ?s' = "s\<lparr>OrderItems := OrderItems s @ zip ?ids (map line_item_of_pair pairs),
               nextId := Suc ?i, Orders := Orders s @ [(?i, ?x)]\<rparr>"
  have run: "post_order order_valid now s body =
      (?s', ok 201 ''This order has been posted'' (OrderData (?i, ?x)))"
    using post_order_valid_request
        [where order_valid = order_valid and now = now and s = s and body = body
           and pairs = pairs and u = u, OF assms]
    by (simp add: Let_def)
  have "findById (Orders s) ?i = None"
    using assms(1) by (auto simp: fresh_ids_def findById_None_iff)
  then have stored: "findById (Orders ?s') ?i = Some (?i, ?x)"
    by (simp add: findById_append findById_Cons)
  have len: "length (orderItems ?x) = length pairs"
    by (simp add: new_Order_def)
  have tot: "totalPrice ?x = ?total"
    by (simp add: new_Order_def)
  have later: "\<exists>view.
      get_order_by_id (?s'\<lparr>Products := ps\<rparr>) (ObjectId ?i) =
        ok 200 ''Order with this id has been found'' (OrderView (?i, view))
      \<and> totalPrice view = totalPrice ?x" for ps
    using stored by (intro get_order_by_id_totalPrice) simp
  show ?thesis
    apply (intro exI [of _ ?s'] exI [of _ ?i] exI [of _ ?x] conjI allI)
          apply (rule run)
         apply (rule stored)
        apply (rule len)
       apply (rule tot)
      apply (rule post_order_ignores_totalPrice)
     apply (rule put_order_keeps_totalPrice)
    apply (rule later)
    done
qed

theorem post_order_totalPrice_witness:
  "fresh_ids a_store
   \<and> b_orderItems a_body = Some (map item_of_pair [(3, 3), (2, 4)])
   \<and> list_all (\<lambda>qp. price_at a_store (snd qp) \<noteq> None) [(3, 3), (2, 4)]
   \<and> b_user a_body = map_option ObjectId (Some 1)
   \<and> b_totalPrice a_body = Some 1
   \<and> foldl (+) 0 (map (\<lambda>qp. fst qp * the (price_at a_store (snd qp))) [(3, 3), (2, 4)]) = 40
   \<and> (\<exists>s' i x.
          post_order (\<lambda>x. 0 \<le> totalPrice x \<and> phone x \<noteq> None) 200 a_store a_body =
            (s', ok 201 ''This order has been posted'' (OrderData (i, x)))
          \<and> findById (Orders s') i = Some (i, x)
          \<and> length (orderItems x) = 2
          \<and> totalPrice x = 40)"
proof -
  let ?valid = "\<lambda>x :: rat order. 0 \<le> totalPrice x \<and> phone x \<noteq> None"
  have h1: "fresh_ids a_store"
    by (simp add: fresh_ids_def a_store_def)
  have h2: "b_orderItems a_body = Some (map item_of_pair [(3, 3), (2, 4)])"
    by (simp add: a_body_def)
  have p3: "price_at a_store 3 = Some 10" and p4: "price_at a_store 4 = Some 5"
    by (simp_all add: price_at_def a_store_def findById_Cons)
  have h3: "\<forall>qp\<in>set [(3, 3), (2, 4)]. price_at a_store (snd qp) \<noteq> None"
    by (simp add: p3 p4)
  have h4: "b_user a_body = map_option ObjectId (Some 1)"
    by (simp add: a_body_def)
  have total:
    "foldl (+) 0 (map (\<lambda>qp. fst qp * the (price_at a_store (snd qp))) [(3, 3), (2, 4)])
       = (40 :: rat)"
    by (simp add: p3 p4)
  have h5: "?valid
      (new_Order 200 [nextId a_store..<nextId a_store + length [(3 :: rat, 3 :: oid), (2, 4)]]
         (foldl (+) 0 (map (\<lambda>qp. fst qp * the (price_at a_store (snd qp))) [(3, 3), (2, 4)]))
         (Some 1) a_body)"
    unfolding total by (simp add: new_Order_def a_body_def)
  have h6: "b_totalPrice a_body = Some 1"
    by (simp add: a_body_def)
  from post_order_totalPrice
      [where order_valid = ?valid and now = 200 and s = a_store and body = a_body
         and pairs = "[(3, 3), (2, 4)]" and u = "Some 1", OF h1 h2 h3 h4 h5]
  obtain s' i x where
    r: "post_order ?valid 200 a_store a_body =
          (s', ok 201 ''This order has been posted'' (OrderData (i, x)))"
      "findById (Orders s') i = Some (i, x)"
      "length (orderItems x) = length [(3 :: rat, 3 :: oid), (2, 4)]"
      "totalPrice x =
         foldl (+) 0 (map (\<lambda>qp. fst qp * the (price_at a_store (snd qp))) [(3, 3), (2, 4)])"
    by blast
  from r(3) have len: "length (orderItems x) = 2"
    by simp
  from r(4) have tot: "totalPrice x = 40"
    by (simp only: total)
  have "\<exists>s' i x.
          post_order ?valid 200 a_store a_body =
            (s', ok 201 ''This order has been posted'' (OrderData (i, x)))
          \<and> findById (Orders s') i = Some (i, x)
          \<and> length (orderItems x) = 2
          \<and> totalPrice x = 40"
    using r(1,2) len tot by blast
  with h1 h2 h3 h4 h6 total show ?thesis
    by (simp only: list_all_iff simp_thms)
qed

section \<open>Order Query Service: shipping-address fields\<close>

lemma address_fields_selected:
  "address_fields (populate_orderItems s (populate_user s (select_without_address x))) =
     [None, None, None, None, None]"
  by (simp add: address_fields_def populate_orderItems_def populate_user_def
      select_without_address_def)

lemma address_fields_populated:
  "address_fields (populate_orderItems s (populate_user s x)) = address_fields x"
  by (simp add: address_fields_def populate_orderItems_def populate_user_def)

text \<open>
  C4. \<^verbatim>\<open>GET /orders\<close> answers 200 with one representation per stored order, and in
  each of them none of the five shipping-address fields is present;
  \<^verbatim>\<open>GET /orders/:id\<close> of a stored order answers 200 with a representation whose
  shipping-address fields are those of the stored order.
\<close>

theorem list_strips_address_get_keeps_it:
  "(\<exists>views.
      get_orders s =
        ok 200 (if Orders s = [] then ''No orders'' else ''Orders found'') (OrderViews views)
      \<and> length views = length (Orders s)
      \<and> fst ` set views = fst ` set (Orders s)
      \<and> (\<forall>v\<in>set views. address_fields (snd v) = [None, None, None, None, None]))
   \<and> (\<forall>i x. findById (Orders s) i = Some (i, x) \<longrightarrow>
         (\<exists>view.
            get_order_by_id s (ObjectId i) =
              ok 200 ''Order with this id has been found'' (OrderView (i, view))
            \<and> address_fields view = address_fields x))"
proof -
  let ?view = "\<lambda>d. (fst d, populate_orderItems s (populate_user s (select_without_address (snd d))))"
  let ?views = "sort_key (\<lambda>d. - int (dateOrdered (snd d))) (map ?view (Orders s))"
  have len: "length ?views = length (Orders s)"
    by simp
  have "get_orders s =
      ok 200 (if length ?views = 0 then ''No orders'' else ''Orders found'') (OrderViews ?views)"
    by (simp only: get_orders_def truthy_object_def Let_def simp_thms if_False)
  then have run: "get_orders s =
      ok 200 (if Orders s = [] then ''No orders'' else ''Orders found'') (OrderViews ?views)"
    by (simp only: len length_0_conv)
  have ids: "fst ` set ?views = fst ` set (Orders s)"
    by (force simp: image_iff)
  have stripped: "\<forall>v\<in>set ?views. address_fields (snd v) = [None, None, None, None, None]"
    by (auto simp: address_fields_selected)
  have got: "\<exists>view.
      get_order_by_id s (ObjectId i) =
        ok 200 ''Order with this id has been found'' (OrderView (i, view))
      \<and> address_fields view = address_fields x"
    if "findById (Orders s) i = Some (i, x)" for i x
    using get_order_by_id_found [OF that] address_fields_populated [of s x] by blast
  from run len ids stripped got show ?thesis
    by blast
qed

theorem list_strips_address_get_keeps_it_witness:
  "findById (Orders a_store) 6 = Some (6, an_order)
   \<and> (\<exists>views.
        get_orders a_store = ok 200 ''Orders found'' (OrderViews views)
        \<and> length views = 1
        \<and> list_all (\<lambda>v. address_fields (snd v) = [None, None, None, None, None]) views)
   \<and> (\<exists>view.
        get_order_by_id a_store (ObjectId 6) =
          ok 200 ''Order with this id has been found'' (OrderView (6, view))
        \<and> address_fields view =
            [Some ''Flowers Street, 45'', Some ''1-B'', Some ''Prague'', Some ''00000'',
             Some ''Czech Republic''])"
proof -
  have h: "findById (Orders a_store) 6 = Some (6, an_order)"
    by (simp add: a_store_def findById_Cons)
  have o: "Orders a_store = [(6, an_order)]"
    by (simp add: a_store_def)
  have a: "address_fields an_order =
      [Some ''Flowers Street, 45'', Some ''1-B'', Some ''Prague'', Some ''00000'',
       Some ''Czech Republic'']"
    by (simp add: address_fields_def an_order_def)
  from list_strips_address_get_keeps_it [of a_store] obtain views where
    v: "get_orders a_store =
          ok 200 (if Orders a_store = [] then ''No orders'' else ''Orders found'') (OrderViews views)"
      "length views = length (Orders a_store)"
      "\<forall>v\<in>set views. address_fields (snd v) = [None, None, None, None, None]"
    and g: "\<forall>i x. findById (Orders a_store) i = Some (i, x) \<longrightarrow>
         (\<exists>view.
            get_order_by_id a_store (ObjectId i) =
              ok 200 ''Order with this id has been found'' (OrderView (i, view))
            \<and> address_fields view = address_fields x)"
    by blast
  have l: "\<exists>views.
        get_orders a_store = ok 200 ''Orders found'' (OrderViews views)
        \<and> length views = 1
        \<and> list_all (\<lambda>v. address_fields (snd v) = [None, None, None, None, None]) views"
    using v by (auto simp: o list_all_iff)
  from g h have "\<exists>view.
        get_order_by_id a_store (ObjectId 6) =
          ok 200 ''Order with this id has been found'' (OrderView (6, view))
        \<and> address_fields view = address_fields an_order"
    by blast
  with h l show ?thesis
    by (simp only: a simp_thms)
qed

section \<open>Credential validation: the revocation rule\<close>

lemma starts_with_append: "starts_with q p \<Longrightarrow> p = q @ drop (length q) p"
  by (induction q p rule: starts_with.induct) auto

lemma starts_with_set: "starts_with q p \<Longrightarrow> set q \<subseteq> set p"
  by (induction q p rule: starts_with.induct) auto

lemma no_slash_no_occurrence:
  "CHR ''/'' \<notin> set seg \<Longrightarrow> \<not> occurs_in (CHR ''/'' # q) seg"
  by (induction seg) auto

lemma no_slash_no_start:
  "CHR ''/'' \<notin> set seg \<Longrightarrow> CHR ''/'' \<in> set q \<Longrightarrow> \<not> starts_with q seg"
  using starts_with_set [of q seg] by auto

lemma order_route_not_excluded:
  assumes "order_route (pathname r)"
  shows "\<not> unless ''/api/v1'' r"
proof -
  consider (fixed) "pathname r = ''/api/v1/orders'' \<or> pathname r = ''/api/v1/orders/get/count''
        \<or> pathname r = ''/api/v1/orders/get/totalsales''"
    | (by_id) "starts_with ''/api/v1/orders/'' (pathname r)"
        "CHR ''/'' \<notin> set (drop (length ''/api/v1/orders/'') (pathname r))"
    | (by_user) "starts_with ''/api/v1/orders/get/orders/'' (pathname r)"
        "CHR ''/'' \<notin> set (drop (length ''/api/v1/orders/get/orders/'') (pathname r))"
    using assms unfolding order_route_def by blast
  then show ?thesis
  proof cases
    case fixed
    then show ?thesis
      by (auto simp: unless_def)
  next
    case by_id
    define seg where "seg = drop (length ''/api/v1/orders/'') (pathname r)"
    have p: "pathname r = ''/api/v1/orders/'' @ seg"
      unfolding seg_def by (rule starts_with_append [OF by_id(1)])
    have ns: "CHR ''/'' \<notin> set seg"
      unfolding seg_def by (rule by_id(2))
    show ?thesis
      unfolding unless_def p
      by (simp add: no_slash_no_occurrence [OF ns] no_slash_no_start [OF ns])
  next
    case by_user
    define seg where "seg = drop (length ''/api/v1/orders/get/orders/'') (pathname r)"
    have p: "pathname r = ''/api/v1/orders/get/orders/'' @ seg"
      unfolding seg_def by (rule starts_with_append [OF by_user(1)])
    have ns: "CHR ''/'' \<notin> set seg"
      unfolding seg_def by (rule by_user(2))
    show ?thesis
      unfolding unless_def p
      by (simp add: no_slash_no_occurrence [OF ns] no_slash_no_start [OF ns])
  qed
qed

lemma isRevoked_iff: "truthy (isRevoked token) \<longleftrightarrow> \<not> truthy (userIsAdmin token)"
  by (simp add: isRevoked_def truthy_def)

lemma authJwt_gate:
  "\<not> unless api r \<Longrightarrow>
   authJwt api r = Next \<longleftrightarrow> (\<exists>t. bearer r = Some t \<and> truthy (userIsAdmin t))"
  by (cases "bearer r") (simp_all add: authJwt_def isRevoked_iff)

text \<open>
  C8. \<^verbatim>\<open>isRevoked\<close> holds of a credential exactly when its admin flag is not set
  (absent or \<^verbatim>\<open>false\<close>). So on every request, other than \<^verbatim>\<open>OPTIONS\<close>, that
  \<^verbatim>\<open>unless\<close> does not exempt, and in particular on every such request to a route
  of the orders router, the gate lets the request through exactly when it carries a
  valid credential whose admin flag is set.
\<close>

theorem non_admin_credential_revoked:
  "(truthy (isRevoked token) \<longleftrightarrow> \<not> truthy (userIsAdmin token))
   \<and> (http_method r \<noteq> OPTIONS \<and> \<not> unless api r \<longrightarrow>
        (authJwt api r = Next \<longleftrightarrow> (\<exists>t. bearer r = Some t \<and> truthy (userIsAdmin t))))
   \<and> (http_method r \<noteq> OPTIONS \<and> order_route (pathname r) \<longrightarrow>
        (authJwt ''/api/v1'' r = Next \<longleftrightarrow> (\<exists>t. bearer r = Some t \<and> truthy (userIsAdmin t))))"
  using isRevoked_iff [of token] authJwt_gate [of api r]
    authJwt_gate [OF order_route_not_excluded, of r]
  by blast

theorem non_admin_credential_revoked_witness:
  "order_route ''/api/v1/orders/63d1aa207f128e73e0d6b629''
   \<and> truthy (isRevoked \<lparr>userId = 1, userIsAdmin = Some False\<rparr>)
   \<and> truthy (isRevoked \<lparr>userId = 1, userIsAdmin = None\<rparr>)
   \<and> \<not> truthy (isRevoked \<lparr>userId = 1, userIsAdmin = Some True\<rparr>)
   \<and> GET \<noteq> OPTIONS
   \<and> authJwt ''/api/v1''
         \<lparr>http_method = GET, pathname = ''/api/v1/orders/63d1aa207f128e73e0d6b629'',
          bearer = Some \<lparr>userId = 1, userIsAdmin = Some False\<rparr>\<rparr> = UnauthorizedError
   \<and> authJwt ''/api/v1''
         \<lparr>http_method = GET, pathname = ''/api/v1/orders/63d1aa207f128e73e0d6b629'',
          bearer = Some \<lparr>userId = 1, userIsAdmin = Some True\<rparr>\<rparr> = Next"
proof -
  let ?p = "''/api/v1/orders/63d1aa207f128e73e0d6b629''"
  let ?r = "\<lambda>f. \<lparr>http_method = GET, pathname = ?p, bearer = Some \<lparr>userId = 1, userIsAdmin = f\<rparr>\<rparr>"
  have route: "order_route ?p"
    by (simp add: order_route_def)
  have t: "truthy (Some True)" "\<not> truthy (Some False)" "\<not> truthy None"
    by (simp_all add: truthy_def)
  from non_admin_credential_revoked
      [where token = "\<lparr>userId = 1, userIsAdmin = Some False\<rparr>" and api = "''/api/v1''"
         and r = "?r (Some False)"]
    non_admin_credential_revoked
      [where token = "\<lparr>userId = 1, userIsAdmin = None\<rparr>" and api = "''/api/v1''"
         and r = "?r (Some True)"]
    non_admin_credential_revoked
      [where token = "\<lparr>userId = 1, userIsAdmin = Some True\<rparr>" and api = "''/api/v1''"
         and r = "?r (Some True)"]
    route t
  show ?thesis
    by (auto intro: verdict.exhaust)
qed

end
